theory Spec2Isabelle
  imports Complex_Main "HOL-Library.Multiset"
begin

section \<open>KDTree-rec.py: the data model\<close>

text \<open>
  A data point is a row of a two-dimensional numpy array: a list of coordinates. The array
  itself is the list of its rows; \<open>is_2d k points\<close> says that every row has \<open>k\<close> columns,
  which numpy guarantees of any 2D array. Coordinates are real numbers (NaN is not modelled).
\<close>

type_synonym point = "real list"
type_synonym ndarray = "point list"

definition is_2d :: "nat \<Rightarrow> ndarray \<Rightarrow> bool" where
  "is_2d k points = (\<forall>p \<in> set points. length p = k)"

text \<open>\<open>points.shape[0]\<close> and \<open>points.shape[1]\<close>; the latter is read only of a non-empty array.\<close>

definition shape0 :: "ndarray \<Rightarrow> nat" where
  "shape0 points = length points"

definition shape1 :: "ndarray \<Rightarrow> nat" where
  "shape1 points = length (hd points)"

text \<open>The only exception the module can raise comes from numpy's column indexing.\<close>

datatype error = IndexError

text \<open>
  \<open>class Node(namedtuple("Node", "location left_child right_child"))\<close>; a tree is either
  Python's \<open>None\<close> (here \<open>Empty\<close>) or a \<open>Node\<close>.
\<close>

datatype node = Empty | Node (location: point) (left_child: node) (right_child: node)

fun n_nodes :: "node \<Rightarrow> nat" where
  "n_nodes Empty = 0"
| "n_nodes (Node p l r) = n_nodes l + 1 + n_nodes r"

fun locations :: "node \<Rightarrow> point list" where
  "locations Empty = []"
| "locations (Node p l r) = locations l @ p # locations r"

section \<open>numpy operations used by \<open>kdtree\<close>\<close>

text \<open>
  \<open>points[:, axis]\<close>: the column of index \<open>axis\<close>. A negative index counts from the last
  column; an index outside \<open>[-k, k)\<close> raises IndexError.
\<close>

definition column :: "ndarray \<Rightarrow> int \<Rightarrow> error + real list" where
  "column points axis =
     (let k = int (shape1 points);
          j = (if axis < 0 then axis + k else axis)
      in if 0 \<le> j \<and> j < k then Inr (map (\<lambda>p. p ! nat j) points) else Inl IndexError)"

text \<open>
  \<open>keys.argsort()\<close>: the indices of \<open>keys\<close> in ascending order of the key. It reads the
  key column only. numpy's default sort kind is not stable: it promises a permutation of
  the indices in ascending order of the key and no order among the indices of equal keys.
  The definition fixes one such order, the order of the input; numpy may answer another
  where keys tie. Nothing stated below of every input names the order of tied rows.
\<close>

definition argsort :: "real list \<Rightarrow> nat list" where
  "argsort keys = sort_key (\<lambda>i. keys ! i) [0..<length keys]"

text \<open>\<open>points[idx]\<close> for an index array: the rows of \<open>points\<close> in the order of \<open>idx\<close>.\<close>

definition take_rows :: "ndarray \<Rightarrow> nat list \<Rightarrow> ndarray" where
  "take_rows points idx = map (\<lambda>i. points ! i) idx"

section \<open>\<open>kdtree\<close>\<close>

text \<open>
  The recursive construction. \<open>(axis+1) % k\<close> is Python's floor modulus, which is \<open>mod\<close>
  on \<open>int\<close>; it is reached only after the column has been read, hence with \<open>k > 0\<close>.
\<close>

function kdtree :: "ndarray \<Rightarrow> int \<Rightarrow> error + node" where
  "kdtree points axis =
     (if shape0 points = 0 then Inr Empty
      else
        let k = shape1 points in
        case column points axis of
          Inl e \<Rightarrow> Inl e
        | Inr keys \<Rightarrow>
            let sorted_points = take_rows points (argsort keys);
                median = shape0 sorted_points div 2
            in (case kdtree (take median sorted_points) ((axis + 1) mod int k) of
                  Inl e \<Rightarrow> Inl e
                | Inr l \<Rightarrow>
                   (case kdtree (drop (median + 1) sorted_points) ((axis + 1) mod int k) of
                      Inl e \<Rightarrow> Inl e
                    | Inr r \<Rightarrow> Inr (Node (sorted_points ! median) l r))))"
  by pat_completeness auto
termination
proof (relation "measure (\<lambda>(points, axis). length points)", goal_cases)
  case 1
  show ?case by simp
next
  case (2 points axis k keys sorted_points median)
  then show ?case
    by (auto simp: shape0_def take_rows_def argsort_def column_def Let_def split: if_splits)
next
  case (3 points axis k keys sorted_points median l)
  then show ?case
    by (auto simp: shape0_def take_rows_def argsort_def column_def Let_def split: if_splits)
qed

declare kdtree.simps [simp del]

section \<open>The two searches\<close>

text \<open>
  Both bodies consist of a docstring and a bare \<open>return\<close>: the call returns Python's
  \<open>None\<close> and raises nothing. A candidate is a pair of a distance and a point.
  \<open>kNN_rec\<close> is documented to modify \<open>neighbors\<close> in place, so the model returns the
  list after the call beside the returned value.
\<close>

type_synonym neighbor = "real \<times> point"

definition one_NN_rec :: "node \<Rightarrow> int \<Rightarrow> point \<Rightarrow> neighbor option \<Rightarrow> error + neighbor option" where
  "one_NN_rec tree axis query neighbor = Inr None"

definition kNN_rec ::
  "node \<Rightarrow> int \<Rightarrow> point \<Rightarrow> neighbor list \<Rightarrow> int \<Rightarrow> (error + nat option) \<times> neighbor list" where
  "kNN_rec tree axis query neighbors n_neighbors = (Inr None, neighbors)"

section \<open>Notions the properties are stated with\<close>

text \<open>
  An axis the column indexing accepts for an array of \<open>k\<close> columns, the column it then
  reads (Python's negative indices count from the end), and that coordinate of a point.
\<close>

definition valid_axis :: "nat \<Rightarrow> int \<Rightarrow> bool" where
  "valid_axis k axis = (- int k \<le> axis \<and> axis < int k)"

definition axis_index :: "nat \<Rightarrow> int \<Rightarrow> nat" where
  "axis_index k axis = nat (axis mod int k)"

definition coord :: "nat \<Rightarrow> int \<Rightarrow> point \<Rightarrow> real" where
  "coord k axis p = p ! axis_index k axis"

text \<open>
  The ordering invariant of a tree whose root splits on \<open>axis\<close> and whose children split on
  the next axis, cyclically: nothing on the left is greater, nothing on the right is smaller
  than the node's own point, in the node's splitting coordinate.
\<close>

fun kd_inv :: "nat \<Rightarrow> int \<Rightarrow> node \<Rightarrow> bool" where
  "kd_inv k axis Empty = True"
| "kd_inv k axis (Node p l r) =
     ((\<forall>q \<in> set (locations l). coord k axis q \<le> coord k axis p) \<and>
      (\<forall>q \<in> set (locations r). coord k axis p \<le> coord k axis q) \<and>
      kd_inv k ((axis + 1) mod int k) l \<and>
      kd_inv k ((axis + 1) mod int k) r)"

text \<open>
  The reference the searches are compared with, which is not code of the module: the
  Euclidean distance and the least distance found by a scan over all points.
\<close>

definition euclidean :: "point \<Rightarrow> point \<Rightarrow> real" where
  "euclidean p q = sqrt (\<Sum>(a, b) \<leftarrow> zip p q. (a - b)\<^sup>2)"

fun linear_scan :: "point \<Rightarrow> ndarray \<Rightarrow> real option" where
  "linear_scan query [] = None"
| "linear_scan query (p # ps) =
     (case linear_scan query ps of
        None \<Rightarrow> Some (euclidean query p)
      | Some d \<Rightarrow> Some (min (euclidean query p) d))"

text \<open>The data points of the docstring of \<open>one_NN_rec\<close>, and the tree \<open>kdtree\<close> builds of them.\<close>

definition example_points :: ndarray where
  "example_points =
     [[1, 3], [1, 8], [2, 2], [2, 10], [3, 6], [4, 1], [5, 4], [6, 8], [7, 4], [7, 7],
      [8, 2], [8, 5], [9, 9]]"

definition example_tree :: node where
  "example_tree =
     Node [5, 4]
       (Node [3, 6]
         (Node [2, 2] (Node [1, 3] Empty Empty) (Node [4, 1] Empty Empty))
         (Node [2, 10] (Node [1, 8] Empty Empty) Empty))
       (Node [7, 7]
         (Node [8, 2] (Node [7, 4] Empty Empty) (Node [8, 5] Empty Empty))
         (Node [9, 9] (Node [6, 8] Empty Empty) Empty))"

section \<open>The rows picked by \<open>argsort\<close>\<close>

lemma insort_key_map_aux:
  "insort_key f (g x) (map g ys) = map g (insort_key (\<lambda>y. f (g y)) x ys)"
  by (induction ys) auto

lemma sort_key_map_aux: "sort_key f (map g xs) = map g (sort_key (\<lambda>y. f (g y)) xs)"
  by (induction xs) (auto simp: insort_key_map_aux)

lemma insort_key_cong_aux:
  "f x = g x \<Longrightarrow> (\<And>y. y \<in> set ys \<Longrightarrow> f y = g y) \<Longrightarrow> insort_key f x ys = insort_key g x ys"
  by (induction ys) auto

lemma sort_key_cong_aux:
  "(\<And>y. y \<in> set ys \<Longrightarrow> f y = g y) \<Longrightarrow> sort_key f ys = sort_key g ys"
proof (induction ys)
  case Nil
  show ?case by simp
next
  case (Cons y ys)
  have "sort_key f ys = sort_key g ys" using Cons by simp
  moreover have "insort_key f y (sort_key g ys) = insort_key g y (sort_key g ys)"
    by (rule insort_key_cong_aux) (use Cons.prems in auto)
  ultimately show ?case by simp
qed

lemma take_rows_argsort:
  "take_rows points (argsort (map f points)) = sort_key f points"
proof -
  have "argsort (map f points) = sort_key (\<lambda>i. f (points ! i)) [0..<length points]"
    unfolding argsort_def by (simp, rule sort_key_cong_aux) simp
  then have "take_rows points (argsort (map f points))
      = sort_key f (map (\<lambda>i. points ! i) [0..<length points])"
    by (simp add: take_rows_def sort_key_map_aux)
  then show ?thesis by (simp add: map_nth)
qed

text \<open>
  Whatever order a sort gives the indices of equal keys, the rows picked in the order of
  a permutation of the indices that is ascending in the key are the rows of the input,
  each as often as it occurs, in ascending order of the key.
\<close>

lemma take_rows_of_sorted_indices:
  assumes "mset idx = mset [0..<length points]"
    and "sorted (map (\<lambda>i. f (points ! i)) idx)"
  shows "mset (take_rows points idx) = mset points \<and> sorted (map f (take_rows points idx))"
proof -
  have "mset (take_rows points idx) = image_mset (\<lambda>i. points ! i) (mset idx)"
    by (simp add: take_rows_def)
  also have "\<dots> = mset (map (\<lambda>i. points ! i) [0..<length points])"
    by (simp add: assms(1))
  also have "\<dots> = mset points" by (simp add: map_nth)
  finally have "mset (take_rows points idx) = mset points" .
  moreover have "map f (take_rows points idx) = map (\<lambda>i. f (points ! i)) idx"
    by (simp add: take_rows_def)
  ultimately show ?thesis using assms(2) by simp
qed

lemma sort_key_mset_inj:
  assumes "mset ys = mset xs" "inj_on f (set xs)"
  shows "sort_key f ys = sort_key f xs"
proof (rule properties_for_sort_key)
  show "mset (sort_key f xs) = mset ys" using assms(1) by simp
  show "sorted (map f (sort_key f xs))" by simp
  fix k assume "k \<in> set (sort_key f xs)"
  then have k: "k \<in> set xs" by simp
  have sets: "set ys = set xs" using assms(1) by (rule mset_eq_setD)
  have "filter (\<lambda>x. f k = f x) zs = filter ((=) k) zs" if "set zs = set xs" for zs
    by (rule filter_cong) (use that k assms(2) in \<open>auto dest: inj_onD\<close>)
  then have "filter (\<lambda>x. f k = f x) (sort_key f xs) = filter ((=) k) (sort_key f xs)"
    and "filter (\<lambda>x. f k = f x) ys = filter ((=) k) ys"
    using sets by simp_all
  moreover have "filter ((=) k) (sort_key f xs) = filter ((=) k) ys"
    using assms(1) by (simp flip: replicate_count_mset_eq_filter_eq)
  ultimately show "filter (\<lambda>x. f k = f x) (sort_key f xs) = filter (\<lambda>x. f k = f x) ys"
    by simp
qed

section \<open>\<open>kdtree\<close> on valid and invalid input\<close>

lemma shape1_is_2d: "is_2d k points \<Longrightarrow> points \<noteq> [] \<Longrightarrow> shape1 points = k"
  by (cases points) (auto simp: is_2d_def shape1_def)

lemma column_valid:
  assumes "is_2d k points" "points \<noteq> []" "valid_axis k axis"
  shows "column points axis = Inr (map (coord k axis) points)"
proof -
  have k: "shape1 points = k" using assms by (simp add: shape1_is_2d)
  have j: "(if axis < 0 then axis + int k else axis) = axis mod int k"
  proof (cases "axis < 0")
    case True
    then have "0 \<le> axis + int k" "axis + int k < int k"
      using assms(3) by (auto simp: valid_axis_def)
    then have "(axis + int k) mod int k = axis + int k"
      by (rule mod_pos_pos_trivial)
    moreover have "(axis + int k) mod int k = axis mod int k" by simp
    ultimately show ?thesis using True by simp
  next
    case False
    then show ?thesis using assms(3) by (simp add: valid_axis_def)
  qed
  have r: "0 \<le> axis mod int k \<and> axis mod int k < int k"
    using assms(3) by (auto simp: valid_axis_def)
  show ?thesis
    unfolding column_def Let_def k j using r
    by (simp add: coord_def axis_index_def)
qed

lemma column_invalid:
  assumes "is_2d k points" "points \<noteq> []" "\<not> valid_axis k axis"
  shows "column points axis = Inl IndexError"
  using assms by (auto simp: column_def Let_def shape1_is_2d valid_axis_def)

lemma valid_axis_next: "valid_axis k axis \<Longrightarrow> valid_axis k ((axis + 1) mod int k)"
  by (auto simp: valid_axis_def intro: order_trans[of _ 0])


lemma kdtree_empty: "kdtree [] axis = Inr Empty"
  by (simp add: kdtree.simps shape0_def)

lemma kdtree_invalid:
  "is_2d k points \<Longrightarrow> points \<noteq> [] \<Longrightarrow> \<not> valid_axis k axis \<Longrightarrow> kdtree points axis = Inl IndexError"
  by (subst kdtree.simps) (simp add: shape0_def column_invalid)

lemma kdtree_step:
  assumes "is_2d k points" "points \<noteq> []" "valid_axis k axis"
  shows "kdtree points axis =
     (case kdtree (take (length points div 2) (sort_key (coord k axis) points))
             ((axis + 1) mod int k) of
        Inl e \<Rightarrow> Inl e
      | Inr l \<Rightarrow>
         (case kdtree (drop (length points div 2 + 1) (sort_key (coord k axis) points))
                 ((axis + 1) mod int k) of
            Inl e \<Rightarrow> Inl e
          | Inr r \<Rightarrow> Inr (Node (sort_key (coord k axis) points ! (length points div 2)) l r)))"
  by (subst kdtree.simps)
    (simp add: Let_def shape0_def column_valid[OF assms] take_rows_argsort shape1_is_2d[OF assms(1,2)] assms(2)
       cong: sum.case_cong)

lemma is_2d_mset: "mset xs = mset ys \<Longrightarrow> is_2d k xs = is_2d k ys"
  by (auto simp: is_2d_def dest: mset_eq_setD)

lemma is_2d_take: "is_2d k xs \<Longrightarrow> is_2d k (take n xs)"
  by (auto simp: is_2d_def dest: in_set_takeD)

lemma is_2d_drop: "is_2d k xs \<Longrightarrow> is_2d k (drop n xs)"
  by (auto simp: is_2d_def dest: in_set_dropD)

lemma is_2d_sort_key: "is_2d k (sort_key f xs) = is_2d k xs"
  by (simp add: is_2d_def)

lemma sorted_take_le_nth:
  assumes "sorted (map f xs)" "m < length xs" "q \<in> set (take m xs)"
  shows "f q \<le> f (xs ! m)"
proof -
  from assms(3) obtain i where i: "i < m" "i < length xs" "q = xs ! i"
    by (auto simp: in_set_conv_nth)
  have "map f xs ! i \<le> map f xs ! m"
    using assms(1,2) i by (intro sorted_nth_mono) auto
  then show ?thesis using i assms(2) by simp
qed

lemma sorted_nth_le_drop:
  assumes "sorted (map f xs)" "m < length xs" "q \<in> set (drop (m + 1) xs)"
  shows "f (xs ! m) \<le> f q"
proof -
  from assms(3) obtain j where j: "j < length (drop (m + 1) xs)" "q = drop (m + 1) xs ! j"
    by (metis in_set_conv_nth)
  define i where "i = j"
  have i: "m + 1 + i < length xs" "q = xs ! (m + 1 + i)"
    using j by (auto simp: i_def)
  have "map f xs ! m \<le> map f xs ! (m + 1 + i)"
    using assms(1,2) i by (intro sorted_nth_mono) auto
  then show ?thesis using i assms(2) by simp
qed

lemma mset_split_at:
  "m < length xs \<Longrightarrow> mset (take m xs) + {#xs ! m#} + mset (drop (m + 1) xs) = mset xs"
proof -
  assume "m < length xs"
  then have "xs = take m xs @ xs ! m # drop (m + 1) xs"
    by (simp add: id_take_nth_drop)
  then have "mset xs = mset (take m xs @ xs ! m # drop (m + 1) xs)" by simp
  then show ?thesis by simp
qed


lemma kdtree_props:
  "is_2d k points \<Longrightarrow> points = [] \<or> valid_axis k axis \<Longrightarrow>
   \<exists>t. kdtree points axis = Inr t \<and> mset (locations t) = mset points \<and>
       n_nodes t = length points \<and> kd_inv k axis t"
proof (induction "length points" arbitrary: points axis rule: less_induct)
  case less
  show ?case
  proof (cases "points = []")
    case True
    then show ?thesis by (simp add: kdtree_empty)
  next
    case False
    then have ax: "valid_axis k axis" using less.prems by simp
    define sp where "sp = sort_key (coord k axis) points"
    define m where "m = length points div 2"
    define ax' where "ax' = (axis + 1) mod int k"
    have len: "length sp = length points" by (simp add: sp_def)
    have m: "m < length sp" using False by (simp add: m_def len)
    have srt: "sorted (map (coord k axis) sp)" by (simp add: sp_def)
    have sp2d: "is_2d k sp" using less.prems(1) by (simp add: sp_def is_2d_sort_key)
    have ax'v: "valid_axis k ax'" unfolding ax'_def by (rule valid_axis_next[OF ax])
    have "length (take m sp) < length points" using m len by simp
    from less.hyps[OF this is_2d_take[OF sp2d]] ax'v
    obtain l where l: "kdtree (take m sp) ax' = Inr l" "mset (locations l) = mset (take m sp)"
      "n_nodes l = length (take m sp)" "kd_inv k ax' l"
      by blast
    have "length (drop (m + 1) sp) < length points" using m len by simp
    from less.hyps[OF this is_2d_drop[OF sp2d]] ax'v
    obtain r where r: "kdtree (drop (m + 1) sp) ax' = Inr r"
      "mset (locations r) = mset (drop (m + 1) sp)"
      "n_nodes r = length (drop (m + 1) sp)" "kd_inv k ax' r"
      by blast
    have step: "kdtree points axis = Inr (Node (sp ! m) l r)"
      using kdtree_step[OF less.prems(1) False ax] l(1) r(1)
      by (simp add: sp_def m_def ax'_def)
    have ms: "mset (locations (Node (sp ! m) l r)) = mset points"
      using mset_split_at[OF m] l(2) r(2) by (simp add: sp_def)
    have sz: "n_nodes (Node (sp ! m) l r) = length points"
      using l(3) r(3) m len by simp
    have sl: "set (locations l) = set (take m sp)" using l(2) by (rule mset_eq_setD)
    have sr: "set (locations r) = set (drop (m + 1) sp)" using r(2) by (rule mset_eq_setD)
    have inv: "kd_inv k axis (Node (sp ! m) l r)"
      using l(4) r(4) sorted_take_le_nth[OF srt m] sorted_nth_le_drop[OF srt m]
      by (simp add: sl sr ax'_def)
    show ?thesis using step ms sz inv by blast
  qed
qed

section \<open>Properties of \<open>kdtree\<close>\<close>

lemma kdtree_example: "kdtree example_points 0 = Inr example_tree"
  unfolding example_points_def example_tree_def by code_simp

lemma kdtree_one_point: "kdtree [[6, 8]] 0 = Inr (Node [6, 8] Empty Empty)"
  by code_simp

lemma kdtree_tie_first: "kdtree [[1, 2], [1, 1]] 0 = Inr (Node [1, 1] (Node [1, 2] Empty Empty) Empty)"
  by code_simp

lemma kdtree_tie_second: "kdtree [[1, 1], [1, 2]] 0 = Inr (Node [1, 2] (Node [1, 1] Empty Empty) Empty)"
  by code_simp

text \<open>
  C2. For a non-empty array and an axis the array has, \<open>kdtree\<close> sorts the rows
  ascending by the coordinate of the axis (the sorted rows are the rows of the input, each
  as often as it occurs, in ascending order of that coordinate; the order of rows that tie
  in it is not stated), takes \<open>median = len(points) // 2\<close>, and returns the node whose
  location is the sorted row of index \<open>median\<close>, whose left child is built from the sorted
  rows before it and whose right child is built from the sorted rows after it, both with
  axis \<open>(axis + 1) mod k\<close>.
\<close>

theorem kdtree_median_split:
  assumes "points \<noteq> []" and "is_2d k points" and "valid_axis k axis"
  shows "\<exists>sorted_points median l r.
           mset sorted_points = mset points \<and>
           sorted (map (coord k axis) sorted_points) \<and>
           median = length points div 2 \<and>
           kdtree (take median sorted_points) ((axis + 1) mod int k) = Inr l \<and>
           kdtree (drop (median + 1) sorted_points) ((axis + 1) mod int k) = Inr r \<and>
           kdtree points axis = Inr (Node (sorted_points ! median) l r)"
proof -
  define sp where "sp = sort_key (coord k axis) points"
  define m where "m = length points div 2"
  have sp2d: "is_2d k sp" using assms(2) by (simp add: sp_def is_2d_sort_key)
  have nxt: "valid_axis k ((axis + 1) mod int k)" by (rule valid_axis_next[OF assms(3)])
  obtain l where l: "kdtree (take m sp) ((axis + 1) mod int k) = Inr l"
    using kdtree_props[OF is_2d_take[OF sp2d, of m], of "(axis + 1) mod int k"] nxt by blast
  obtain r where r: "kdtree (drop (m + 1) sp) ((axis + 1) mod int k) = Inr r"
    using kdtree_props[OF is_2d_drop[OF sp2d, of "m + 1"], of "(axis + 1) mod int k"] nxt by blast
  have "kdtree points axis = Inr (Node (sp ! m) l r)"
    using kdtree_step[OF assms(2,1,3)] l r by (simp add: sp_def m_def)
  moreover have "mset sp = mset points" "sorted (map (coord k axis) sp)"
    by (simp_all add: sp_def)
  ultimately show ?thesis using l r m_def by blast
qed

theorem kdtree_median_split_witness:
  "[[2, 5], [1, 7], [3, 6]] \<noteq> ([] :: ndarray) \<and> is_2d 2 [[2, 5], [1, 7], [3, 6]] \<and> valid_axis 2 0 \<and>
   (\<exists>sorted_points median l r.
      mset sorted_points = mset [[2, 5], [1, 7], [3, 6]] \<and>
      sorted (map (coord 2 0) sorted_points) \<and>
      median = length [[2, 5], [1, 7], [3 :: real, 6]] div 2 \<and>
      kdtree (take median sorted_points) ((0 + 1) mod int 2) = Inr l \<and>
      kdtree (drop (median + 1) sorted_points) ((0 + 1) mod int 2) = Inr r \<and>
      kdtree [[2, 5], [1, 7], [3, 6]] 0 = Inr (Node (sorted_points ! median) l r)) \<and>
   kdtree [[2, 5], [1, 7], [3, 6]] 0
     = Inr (Node [2, 5] (Node [1, 7] Empty Empty) (Node [3, 6] Empty Empty))"
proof -
  have h1: "[[2, 5], [1, 7], [3, 6]] \<noteq> ([] :: ndarray)" by simp
  have h2: "is_2d 2 [[2, 5], [1, 7], [3, 6]]" by (simp add: is_2d_def)
  have h3: "valid_axis 2 0" by (simp add: valid_axis_def)
  have v: "kdtree [[2, 5], [1, 7], [3, 6]] 0
      = Inr (Node [2, 5] (Node [1, 7] Empty Empty) (Node [3, 6] Empty Empty))"
    by code_simp
  show ?thesis using h1 h2 h3 v kdtree_median_split[OF h1 h2 h3] by blast
qed

text \<open>
  C3. In the tree built from any array, duplicates included, every point of the left
  subtree of a node is at most, and every point of its right subtree is at least, the
  node's point in the node's splitting coordinate.
\<close>

theorem kdtree_ordering_invariant:
  assumes "is_2d k points" and "points = [] \<or> valid_axis k axis"
  shows "\<exists>t. kdtree points axis = Inr t \<and> kd_inv k axis t"
  using kdtree_props[OF assms] by blast

theorem kdtree_ordering_invariant_witness:
  "is_2d 2 [[2, 5], [2, 5], [1, 7]] \<and>
   ([[2, 5], [2, 5], [1, 7]] = ([] :: ndarray) \<or> valid_axis 2 0) \<and>
   kdtree [[2, 5], [2, 5], [1, 7]] 0 = Inr (Node [2, 5] (Node [1, 7] Empty Empty) (Node [2, 5] Empty Empty)) \<and>
   kd_inv 2 0 (Node [2, 5] (Node [1, 7] Empty Empty) (Node [2, 5] Empty Empty))"
proof -
  have h1: "is_2d 2 [[2, 5], [2, 5], [1, 7]]" by (simp add: is_2d_def)
  have h2: "[[2, 5], [2, 5], [1, 7]] = ([] :: ndarray) \<or> valid_axis 2 0"
    by (simp add: valid_axis_def)
  have v: "kdtree [[2, 5], [2, 5], [1, 7]] 0
      = Inr (Node [2, 5] (Node [1, 7] Empty Empty) (Node [2, 5] Empty Empty))"
    by code_simp
  show ?thesis using h1 h2 v kdtree_ordering_invariant[OF h1 h2] by simp
qed

text \<open>
  C7. On every input that raises no error, the tree has exactly as many nodes as the
  array has rows, and its locations are the rows, each as often as it occurs.
\<close>

theorem kdtree_node_count:
  assumes "is_2d k points" and "points = [] \<or> valid_axis k axis"
  shows "\<exists>t. kdtree points axis = Inr t \<and> n_nodes t = length points \<and>
             mset (locations t) = mset points"
  using kdtree_props[OF assms] by blast

theorem kdtree_node_count_witness:
  "is_2d 2 [[2, 5], [2, 5], [1, 7]] \<and>
   ([[2, 5], [2, 5], [1, 7]] = ([] :: ndarray) \<or> valid_axis 2 1) \<and>
   kdtree [[2, 5], [2, 5], [1, 7]] 1 = Inr (Node [2, 5] (Node [2, 5] Empty Empty) (Node [1, 7] Empty Empty)) \<and>
   n_nodes (Node [2, 5] (Node [2, 5] Empty Empty) (Node [1, 7] Empty Empty)) = length [[2, 5], [2, 5], [1 :: real, 7]] \<and>
   mset (locations (Node [2, 5] (Node [2, 5] Empty Empty) (Node [1, 7] Empty Empty))) = mset [[2, 5], [2, 5], [1, 7]]"
proof -
  have h1: "is_2d 2 [[2, 5], [2, 5], [1, 7]]" by (simp add: is_2d_def)
  have h2: "[[2, 5], [2, 5], [1, 7]] = ([] :: ndarray) \<or> valid_axis 2 1"
    by (simp add: valid_axis_def)
  have v: "kdtree [[2, 5], [2, 5], [1, 7]] 1
      = Inr (Node [2, 5] (Node [2, 5] Empty Empty) (Node [1, 7] Empty Empty))"
    by code_simp
  obtain t where t: "kdtree [[2, 5], [2, 5], [1, 7]] 1 = Inr t"
      "n_nodes t = length [[2, 5], [2, 5], [1 :: real, 7]]"
      "mset (locations t) = mset [[2, 5], [2, 5], [1, 7]]"
    using kdtree_node_count[OF h1 h2] by blast
  from t(1) v have "t = Node [2, 5] (Node [2, 5] Empty Empty) (Node [1, 7] Empty Empty)" by simp
  with t(2,3) h1 h2 v show ?thesis by blast
qed

text \<open>
  C6 as stated: the trees built from two orderings of one multiset of points are equal.
  It fails for two points that tie on the splitting axis: the sort compares the axis
  column only, both orderings have the key column \<open>[1, 1]\<close>, and the tied rows keep the
  order of the input.
\<close>

theorem kdtree_order_dependent_on_ties:
  "mset [[1, 2], [1, 1 :: real]] = mset [[1, 1], [1, 2]] \<and>
   kdtree [[1, 2], [1, 1]] 0 = Inr (Node [1, 1] (Node [1, 2] Empty Empty) Empty) \<and>
   kdtree [[1, 1], [1, 2]] 0 = Inr (Node [1, 2] (Node [1, 1] Empty Empty) Empty) \<and>
   kdtree [[1, 2], [1, 1]] 0 \<noteq> kdtree [[1, 1], [1, 2]] 0"
  by (simp add: kdtree_tie_first kdtree_tie_second)

text \<open>
  The outcome at these two inputs does not rest on how \<open>argsort\<close> orders equal keys: it
  is given the same key column for both, and whichever order of the two indices it
  answers, the rows it picks differ between the two inputs.
\<close>

lemma tied_rows_differ_for_either_index_order:
  "idx = [0, 1] \<or> idx = [1, 0] \<Longrightarrow>
   take_rows [[1, 2], [1, 1 :: real]] idx ! 1 \<noteq> take_rows [[1, 1], [1, 2]] idx ! 1"
  by (auto simp: take_rows_def)

text \<open>
  C6, amended. The trees built from two orderings of one multiset of points are equal
  whenever points that agree in the coordinate of the starting axis are the same point:
  then the sort by that coordinate has one possible result, and everything below the
  root is built from the sorted rows.
\<close>

theorem kdtree_order_independent:
  assumes "is_2d k xs" and "mset ys = mset xs"
    and "\<forall>p \<in> set xs. \<forall>q \<in> set xs. coord k axis p = coord k axis q \<longrightarrow> p = q"
  shows "kdtree ys axis = kdtree xs axis"
proof (cases "xs = []")
  case True
  then show ?thesis using assms(2) by simp
next
  case False
  then have ys: "ys \<noteq> []" using assms(2) by auto
  have ys2d: "is_2d k ys" using assms(1,2) is_2d_mset by blast
  show ?thesis
  proof (cases "valid_axis k axis")
    case False
    then show ?thesis
      using kdtree_invalid[OF assms(1) \<open>xs \<noteq> []\<close>] kdtree_invalid[OF ys2d ys] by simp
  next
    case True
    have "inj_on (coord k axis) (set xs)" using assms(3) by (auto simp: inj_on_def)
    then have "sort_key (coord k axis) ys = sort_key (coord k axis) xs"
      using assms(2) by (rule sort_key_mset_inj[rotated])
    moreover have "length ys = length xs" using assms(2) by (rule mset_eq_length)
    ultimately show ?thesis
      using kdtree_step[OF assms(1) \<open>xs \<noteq> []\<close> True] kdtree_step[OF ys2d ys True]
      by (simp cong: sum.case_cong)
  qed
qed

theorem kdtree_order_independent_witness:
  "is_2d 2 [[1, 2], [3, 1]] \<and> mset [[3, 1], [1, 2 :: real]] = mset [[1, 2], [3, 1]] \<and>
   distinct (map (coord 2 0) [[1, 2], [3, 1]]) \<and>
   kdtree [[3, 1], [1, 2]] 0 = kdtree [[1, 2], [3, 1]] 0 \<and>
   kdtree [[1, 2], [3, 1]] 0 = Inr (Node [3, 1] (Node [1, 2] Empty Empty) Empty)"
proof -
  have h1: "is_2d 2 [[1, 2], [3, 1]]" by (simp add: is_2d_def)
  have h2: "mset [[3, 1], [1, 2 :: real]] = mset [[1, 2], [3, 1]]" by simp
  have d: "distinct (map (coord 2 0) [[1, 2], [3, 1]])"
    by (simp add: coord_def axis_index_def)
  have h3: "\<forall>p \<in> set [[1, 2], [3, 1]]. \<forall>q \<in> set [[1, 2], [3, 1]].
      coord 2 0 p = coord 2 0 q \<longrightarrow> p = q"
    by (simp add: coord_def axis_index_def)
  have v: "kdtree [[1, 2], [3, 1]] 0 = Inr (Node [3, 1] (Node [1, 2] Empty Empty) Empty)"
    by code_simp
  show ?thesis using h1 h2 d v kdtree_order_independent[OF h1 h2 h3] by blast
qed

section \<open>The searches as written\<close>

text \<open>
  C9. For every tree, axis, query point and initial neighbor, \<open>one_NN_rec\<close> returns
  \<open>None\<close>: no (distance, point) pair is produced by any call.
\<close>

theorem one_NN_rec_returns_None:
  "one_NN_rec tree axis query neighbor = Inr None"
  by (simp add: one_NN_rec_def)

text \<open>
  C10. For every tree, axis, query point, neighbors list and \<open>n_neighbors\<close>, \<open>kNN_rec\<close>
  returns \<open>None\<close>, not a count of visited nodes, and the neighbors list after the call
  is the list that was passed in.
\<close>

theorem kNN_rec_returns_None_keeps_neighbors:
  "kNN_rec tree axis query neighbors n_neighbors = (Inr None, neighbors)"
  by (simp add: kNN_rec_def)


section \<open>The searches against their documentation\<close>

text \<open>
  C1 at one input: for the tree of the single point \<open>(6, 8)\<close> and the query \<open>(4, 8)\<close> a
  linear scan finds the distance 2, and \<open>one_NN_rec\<close> returns \<open>None\<close>, hence no distance.
\<close>

theorem one_NN_rec_differs_from_linear_scan:
  "kdtree [[6, 8]] 0 = Inr (Node [6, 8] Empty Empty) \<and>
   linear_scan [4, 8] [[6, 8]] = Some 2 \<and>
   one_NN_rec (Node [6, 8] Empty Empty) 0 [4, 8] neighbor = Inr None"
  by (simp add: kdtree_one_point one_NN_rec_def euclidean_def)

text \<open>
  C5 at the docstring's example: for the tree of the thirteen points and the query
  \<open>(4, 8)\<close>, \<open>one_NN_rec\<close> returns \<open>None\<close>, not the pair \<open>(2.0, (6, 8))\<close>.
\<close>

theorem one_NN_rec_example_returns_None:
  "kdtree example_points 0 = Inr example_tree \<and>
   one_NN_rec example_tree 0 [4, 8] neighbor = Inr None \<and>
   one_NN_rec example_tree 0 [4, 8] neighbor \<noteq> Inr (Some (2, [6, 8]))"
  by (simp add: kdtree_example one_NN_rec_def)

text \<open>
  C4 at one input: for the tree of the single point \<open>(6, 8)\<close>, the query \<open>(4, 8)\<close>, an
  empty list of neighbors and \<open>n_neighbors = 1\<close>, the list after \<open>kNN_rec\<close> is still
  empty, where one candidate is due, and the value returned is \<open>None\<close>, not a count.
\<close>

theorem kNN_rec_adds_no_neighbor:
  "kdtree [[6, 8]] 0 = Inr (Node [6, 8] Empty Empty) \<and>
   kNN_rec (Node [6, 8] Empty Empty) 0 [4, 8] [] 1 = (Inr None, []) \<and>
   length (snd (kNN_rec (Node [6, 8] Empty Empty) 0 [4, 8] [] 1)) = 0 \<and>
   min 1 (n_nodes (Node [6, 8] Empty Empty)) = 1"
  by (simp add: kdtree_one_point kNN_rec_def)

text \<open>
  C8 as stated: the searches fail with an error on the empty tree. They do not: both
  return \<open>None\<close>.
\<close>

theorem searches_return_on_empty_tree:
  "one_NN_rec Empty 0 [4, 8] None = Inr None \<and>
   fst (kNN_rec Empty 0 [4, 8] [] 1) = Inr None"
  by (simp add: one_NN_rec_def kNN_rec_def)

text \<open>
  C8, amended. \<open>kdtree\<close> of an array without rows returns the empty tree, which has no
  node, and raises nothing; neither search raises an error on the empty tree.
\<close>

theorem empty_tree_no_error:
  "kdtree [] axis = Inr Empty \<and> n_nodes Empty = 0 \<and>
   (\<forall>e. one_NN_rec Empty axis' query neighbor \<noteq> Inl e) \<and>
   (\<forall>e. fst (kNN_rec Empty axis' query neighbors n_neighbors) \<noteq> Inl e)"
  by (simp add: kdtree_empty one_NN_rec_def kNN_rec_def)

end
